theory Spec2Isabelle
  imports Complex_Main "HOL-Library.Word"
begin

section \<open>Data model (main.go, lines 15-34)\<close>

text \<open>
  Go's \<open>int\<close> is a 64-bit two's complement integer on the platforms the program is built
  for (amd64, arm64): \<open>++\<close> wraps around and \<open>>\<close> compares the signed values.
\<close>

type_synonym go_int = "64 word"

record RedditPost =
  Title :: string
  Author :: string
  Upvotes :: go_int

text \<open>
  \<open>TopUsers\<close> is a Go \<open>map[string]int\<close>: a finite map, read with the zero value \<open>0\<close> at a
  key it does not hold.
\<close>

record Stats =
  TopUsers :: "string \<rightharpoonup> go_int"
  MostUpvotedPost :: RedditPost

text \<open>
  A \<open>time.Time\<close> is an instant, here in nanoseconds relative to the Unix epoch. The zero value
  \<open>time.Time{}\<close> is January 1 of year 1, 00:00:00 UTC, which is 62135596800 seconds before the
  epoch. A \<open>time.Duration\<close> is a signed 64-bit count of nanoseconds; \<open>Sub\<close> (and so
  \<open>time.Until\<close>) saturates at its bounds.
\<close>

type_synonym time = int

definition zero_time :: time where
  "zero_time = - 62135596800 * 1000000000"

definition Unix :: "go_int \<Rightarrow> time" where
  "Unix sec = sint sec * 1000000000"

definition Until :: "time \<Rightarrow> time \<Rightarrow> int" where
  "Until t now = max (- (2 ^ 63)) (min (2 ^ 63 - 1) (t - now))"

text \<open>
  The mutex \<open>mu\<close> is kept as the flag "held". The model follows one goroutine at a time:
  \<open>Lock\<close> on a free mutex takes it, and \<open>Lock\<close> on a held mutex does not return.
  \<open>sync.Mutex\<close> is not reentrant, so this is also what happens when the goroutine that
  calls \<open>Lock\<close> is the holder itself.
\<close>

record StatsManager =
  mu :: bool
  stats :: Stats
  remainingRequests :: go_int
  resetTime :: time

text \<open>
  What a call does: it returns (with the state it leaves), it panics (a panic in any goroutine
  ends the process), or it blocks for ever.
\<close>

datatype 'a outcome = Returns 'a | Panics | Blocks

definition Lock :: "StatsManager \<Rightarrow> StatsManager outcome" where
  "Lock sm = (if mu sm then Blocks else Returns (sm\<lparr>mu := True\<rparr>))"

definition Unlock :: "StatsManager \<Rightarrow> StatsManager" where
  "Unlock sm = sm\<lparr>mu := False\<rparr>"

section \<open>The aggregator (main.go, lines 72-93)\<close>

definition zero_post :: RedditPost where
  "zero_post = \<lparr>Title = [], Author = [], Upvotes = 0\<rparr>"

text \<open>
  \<open>NewStatsManager\<close> sets only \<open>TopUsers\<close>; every other field has Go's zero value.
\<close>

definition NewStatsManager :: StatsManager where
  "NewStatsManager =
     \<lparr>mu = False,
      stats = \<lparr>TopUsers = Map.empty, MostUpvotedPost = zero_post\<rparr>,
      remainingRequests = 0,
      resetTime = zero_time\<rparr>"

definition lookup_count :: "(string \<rightharpoonup> go_int) \<Rightarrow> string \<Rightarrow> go_int" where
  "lookup_count m a = (case m a of None \<Rightarrow> 0 | Some c \<Rightarrow> c)"

text \<open>The body of the loop of \<open>UpdateStats\<close> (lines 87-91).\<close>

definition update_post :: "RedditPost \<Rightarrow> Stats \<Rightarrow> Stats" where
  "update_post post st =
     (let st1 = st\<lparr>TopUsers :=
                   (TopUsers st)(Author post \<mapsto> lookup_count (TopUsers st) (Author post) + 1)\<rparr>
      in if Upvotes (MostUpvotedPost st1) <s Upvotes post
         then st1\<lparr>MostUpvotedPost := post\<rparr>
         else st1)"

definition UpdateStats :: "RedditPost list \<Rightarrow> StatsManager \<Rightarrow> StatsManager outcome" where
  "UpdateStats posts sm =
     (case Lock sm of
        Returns sm1 \<Rightarrow> Returns (Unlock (sm1\<lparr>stats := fold update_post posts (stats sm1)\<rparr>))
      | Panics \<Rightarrow> Panics
      | Blocks \<Rightarrow> Blocks)"

text \<open>A sequence of \<open>update()\<close> calls, one list of posts per call.\<close>

fun update_all :: "RedditPost list list \<Rightarrow> StatsManager \<Rightarrow> StatsManager outcome" where
  "update_all [] sm = Returns sm"
| "update_all (posts # rest) sm =
     (case UpdateStats posts sm of
        Returns sm' \<Rightarrow> update_all rest sm'
      | Panics \<Rightarrow> Panics
      | Blocks \<Rightarrow> Blocks)"

definition top_post :: "StatsManager outcome \<Rightarrow> RedditPost option" where
  "top_post r = (case r of Returns sm \<Rightarrow> Some (MostUpvotedPost (stats sm)) | _ \<Rightarrow> None)"

section \<open>Decoded JSON and HTTP responses\<close>

text \<open>
  \<open>encoding/json\<close> decodes into \<open>interface{}\<close> values: \<open>nil\<close>, \<open>bool\<close>, \<open>float64\<close>,
  \<open>string\<close>, \<open>[]interface{}\<close> and \<open>map[string]interface{}\<close>. A decoded number is a finite
  \<open>float64\<close> (the decoder rejects what does not fit), that is a rational; the literal
  \<open>42.0\<close> is stored as exactly 42. A decoded object is given by the list of its entries,
  one per key (\<open>map_of\<close> reads the first entry of a key), and is read like the Go map: a
  key that is not there reads as \<open>nil\<close>.
\<close>

datatype json =
    JNull
  | JBool bool
  | JNumber rat
  | JString string
  | JArray "json list"
  | JObject "(string \<times> json) list"

datatype error = DoError string | StatusError string | DecodeError

record Response =
  StatusCode :: int
  Status :: string
  Header :: "string \<Rightarrow> string"
  Body :: "json option"

text \<open>
  \<open>Header\<close> is \<open>resp.Header.Get\<close>: the empty string for a header that is not set.
  \<open>Body\<close> is what \<open>json.NewDecoder(resp.Body)\<close> reads: \<open>None\<close> when the body cannot be
  read or is not JSON.

  \<open>Decode\<close> into a \<open>map[string]interface{}\<close> variable: an object fills the map, \<open>null\<close>
  leaves the map \<open>nil\<close> (which reads as an empty map) and returns no error, any other JSON
  value is an \<open>UnmarshalTypeError\<close>.
\<close>

definition decode_map :: "json option \<Rightarrow> error + (string \<times> json) list" where
  "decode_map body =
     (case body of
        None \<Rightarrow> Inl DecodeError
      | Some (JObject m) \<Rightarrow> Inr m
      | Some JNull \<Rightarrow> Inr []
      | Some _ \<Rightarrow> Inl DecodeError)"

definition map_index :: "(string \<times> json) list \<Rightarrow> string \<Rightarrow> json" where
  "map_index m k = (case map_of m k of None \<Rightarrow> JNull | Some v \<Rightarrow> v)"

text \<open>
  The single-value type assertions \<open>x.(T)\<close>: \<open>None\<close> is the run-time panic raised when
  \<open>x\<close> is \<open>nil\<close> or holds another type.
\<close>

fun assert_map :: "json \<Rightarrow> (string \<times> json) list option" where
  "assert_map (JObject m) = Some m"
| "assert_map _ = None"

fun assert_slice :: "json \<Rightarrow> json list option" where
  "assert_slice (JArray xs) = Some xs"
| "assert_slice _ = None"

fun assert_string :: "json \<Rightarrow> string option" where
  "assert_string (JString s) = Some s"
| "assert_string _ = None"

fun assert_float64 :: "json \<Rightarrow> rat option" where
  "assert_float64 (JNumber x) = Some x"
| "assert_float64 _ = None"

text \<open>
  The conversion \<open>int(f)\<close> of a \<open>float64\<close> discards the fraction. Where the result does
  not fit in an \<open>int\<close> the language leaves the value to the implementation; amd64 yields
  the smallest \<open>int\<close>, which is taken here.
\<close>

definition int_of_float64 :: "rat \<Rightarrow> go_int" where
  "int_of_float64 f =
     (let t = (if 0 \<le> f then \<lfloor>f\<rfloor> else \<lceil>f\<rceil>)
      in if - (2 ^ 63) \<le> t \<and> t < 2 ^ 63 then word_of_int t else word_of_int (- (2 ^ 63)))"

section \<open>FetchAccessToken (main.go, lines 38-68)\<close>

text \<open>
  The argument is what \<open>client.Do\<close> returns. \<open>http.NewRequest\<close> is called with a constant
  method and a constant, well-formed URL, so its error branch is never taken.
\<close>

definition FetchAccessToken :: "error + Response \<Rightarrow> (error + string) outcome" where
  "FetchAccessToken do_result =
     (case do_result of
        Inl err \<Rightarrow> Returns (Inl err)
      | Inr resp \<Rightarrow>
          if StatusCode resp \<noteq> 200 then Returns (Inl (StatusError (Status resp)))
          else (case decode_map (Body resp) of
                  Inl err \<Rightarrow> Returns (Inl err)
                | Inr tokenResponse \<Rightarrow>
                    (case assert_string (map_index tokenResponse ''access_token'') of
                       None \<Rightarrow> Panics
                     | Some token \<Rightarrow> Returns (Inr token))))"

section \<open>FetchRedditData (main.go, lines 129-185)\<close>

text \<open>The body of the loop over the children (lines 173-178).\<close>

definition child_post :: "json \<Rightarrow> RedditPost option" where
  "child_post child =
     (case assert_map child of
        None \<Rightarrow> None
      | Some c \<Rightarrow>
          (case assert_map (map_index c ''data'') of
             None \<Rightarrow> None
           | Some postData \<Rightarrow>
               (case assert_string (map_index postData ''title'') of
                  None \<Rightarrow> None
                | Some title \<Rightarrow>
                    (case assert_string (map_index postData ''author'') of
                       None \<Rightarrow> None
                     | Some author \<Rightarrow>
                         (case assert_float64 (map_index postData ''score'') of
                            None \<Rightarrow> None
                          | Some score \<Rightarrow>
                              Some \<lparr>Title = title, Author = author,
                                    Upvotes = int_of_float64 score\<rparr>)))))"

fun collect_posts :: "json list \<Rightarrow> RedditPost list \<Rightarrow> RedditPost list option" where
  "collect_posts [] posts = Some posts"
| "collect_posts (child # rest) posts =
     (case child_post child of
        None \<Rightarrow> None
      | Some p \<Rightarrow> collect_posts rest (posts @ [p]))"

text \<open>The range expression of line 172.\<close>

definition listing_children :: "(string \<times> json) list \<Rightarrow> json list option" where
  "listing_children result =
     (case assert_map (map_index result ''data'') of
        None \<Rightarrow> None
      | Some d \<Rightarrow> assert_slice (map_index d ''children''))"

definition listing_posts :: "(string \<times> json) list \<Rightarrow> RedditPost list option" where
  "listing_posts result =
     (case listing_children result of
        None \<Rightarrow> None
      | Some children \<Rightarrow> collect_posts children [])"

text \<open>
  \<open>Sscanf_d s\<close> stands for \<open>fmt.Sscanf(s, "%d", &n)\<close>: the number scanned, or \<open>None\<close> when
  the scan fails and leaves \<open>n\<close> as it was. \<open>ParseInt s\<close> stands for the value returned by
  \<open>strconv.ParseInt(s, 10, 64)\<close>, whose error the code drops. Both are library functions
  and are parameters of the model.

  The function locks \<open>sm.mu\<close> only inside the first \<open>if\<close>, and defers the unlock to its
  own return; \<open>held\<close> records whether that happened. A deferred unlock also runs when the
  function panics, after which the process ends.
\<close>

definition FetchRedditData ::
  "(string \<Rightarrow> go_int option) \<Rightarrow> (string \<Rightarrow> go_int) \<Rightarrow> error + Response \<Rightarrow>
   StatsManager \<Rightarrow> StatsManager outcome" where
  "FetchRedditData Sscanf_d ParseInt do_result sm =
     (case do_result of
        Inl err \<Rightarrow> Returns sm
      | Inr resp \<Rightarrow>
          if StatusCode resp = 429 then Returns sm
          else
            let remaining = Header resp ''X-RateLimit-Remaining'';
                held = (remaining \<noteq> [])
            in (case (if held then Lock sm else Returns sm) of
                  Panics \<Rightarrow> Panics
                | Blocks \<Rightarrow> Blocks
                | Returns sm0 \<Rightarrow>
                    let sm1 = (if held
                               then (case Sscanf_d remaining of
                                       None \<Rightarrow> sm0
                                     | Some n \<Rightarrow> sm0\<lparr>remainingRequests := n\<rparr>)
                               else sm0);
                        reset = Header resp ''X-RateLimit-Reset'';
                        sm2 = (if reset \<noteq> []
                               then sm1\<lparr>resetTime := Unix (ParseInt reset)\<rparr>
                               else sm1)
                    in (case decode_map (Body resp) of
                          Inl err \<Rightarrow> Returns (if held then Unlock sm2 else sm2)
                        | Inr result \<Rightarrow>
                            (case listing_posts result of
                               None \<Rightarrow> Panics
                             | Some posts \<Rightarrow>
                                 (case UpdateStats posts sm2 of
                                    Returns sm3 \<Rightarrow> Returns (if held then Unlock sm3 else sm3)
                                  | Panics \<Rightarrow> Panics
                                  | Blocks \<Rightarrow> Blocks)))))"

section \<open>The scheduler loop (main.go, lines 222-240)\<close>

text \<open>
  What one iteration does, as the events an observer sees: a fetch, the wait for the rate-limit
  reset (line 234), the fixed pause (line 239). The goroutine of line 227 is waited for at
  once, so the fetch is a call. \<open>countdown > 0\<close> holds exactly when the duration returned by
  \<open>time.Until\<close> is positive. The loop reads \<open>sm.remainingRequests\<close> and \<open>sm.resetTime\<close>
  without taking the mutex.
\<close>

datatype event = Fetch | WaitForReset | Pause

definition main_iteration ::
  "(string \<Rightarrow> go_int option) \<Rightarrow> (string \<Rightarrow> go_int) \<Rightarrow> time \<Rightarrow> error + Response \<Rightarrow>
   StatsManager \<Rightarrow> (StatsManager \<times> event list) outcome" where
  "main_iteration Sscanf_d ParseInt now do_result sm =
     (if 0 <s remainingRequests sm
      then (case FetchRedditData Sscanf_d ParseInt do_result sm of
              Returns sm' \<Rightarrow> Returns (sm', [Fetch, Pause])
            | Panics \<Rightarrow> Panics
            | Blocks \<Rightarrow> Blocks)
      else Returns (sm, (if 0 < Until (resetTime sm) now then [WaitForReset] else []) @ [Pause]))"

text \<open>
  The loop has no exit. \<open>main_loop clock server i n sm\<close> runs its iterations \<open>i\<close>, ...,
  \<open>i + n - 1\<close> from the state \<open>sm\<close>: \<open>clock j\<close> is the time read in iteration \<open>j\<close> and
  \<open>server j\<close> what \<open>client.Do\<close> would return there. The printer goroutine writes no field
  of the manager, so it does not appear.
\<close>

fun main_loop ::
  "(string \<Rightarrow> go_int option) \<Rightarrow> (string \<Rightarrow> go_int) \<Rightarrow> (nat \<Rightarrow> time) \<Rightarrow>
   (nat \<Rightarrow> error + Response) \<Rightarrow> nat \<Rightarrow> nat \<Rightarrow> StatsManager \<Rightarrow>
   (StatsManager \<times> event list) outcome" where
  "main_loop Sscanf_d ParseInt clock server i 0 sm = Returns (sm, [])"
| "main_loop Sscanf_d ParseInt clock server i (Suc n) sm =
     (case main_iteration Sscanf_d ParseInt (clock i) (server i) sm of
        Returns (sm', evs) \<Rightarrow>
          (case main_loop Sscanf_d ParseInt clock server (Suc i) n sm' of
             Returns (sm'', evs') \<Rightarrow> Returns (sm'', evs @ evs')
           | Panics \<Rightarrow> Panics
           | Blocks \<Rightarrow> Blocks)
      | Panics \<Rightarrow> Panics
      | Blocks \<Rightarrow> Blocks)"

section \<open>Properties of the aggregator\<close>

subsection \<open>Auxiliary facts\<close>

lemma UpdateStats_free:
  "\<not> mu sm \<Longrightarrow> UpdateStats posts sm = Returns (sm\<lparr>stats := fold update_post posts (stats sm)\<rparr>)"
  by (simp add: UpdateStats_def Lock_def Unlock_def)

lemma UpdateStats_held: "mu sm \<Longrightarrow> UpdateStats posts sm = Blocks"
  by (simp add: UpdateStats_def Lock_def)

lemma update_all_free:
  "\<not> mu sm \<Longrightarrow>
   update_all pss sm = Returns (sm\<lparr>stats := fold update_post (concat pss) (stats sm)\<rparr>)"
  by (induction pss arbitrary: sm) (simp_all add: UpdateStats_free)

lemma TopUsers_update_post:
  "TopUsers (update_post p st) =
     (TopUsers st)(Author p \<mapsto> lookup_count (TopUsers st) (Author p) + 1)"
  by (simp add: update_post_def Let_def)

lemma MostUpvotedPost_update_post:
  "MostUpvotedPost (update_post p st) =
     (if Upvotes (MostUpvotedPost st) <s Upvotes p then p else MostUpvotedPost st)"
  by (simp add: update_post_def Let_def)

lemma lookup_count_fold:
  "lookup_count (TopUsers (fold update_post ps st)) A =
     lookup_count (TopUsers st) A + word_of_nat (length (filter (\<lambda>p. Author p = A) ps))"
  by (induction ps arbitrary: st) (simp_all add: TopUsers_update_post lookup_count_def)

lemma TopUsers_fold_None:
  "TopUsers (fold update_post ps st) A = None \<longleftrightarrow>
     TopUsers st A = None \<and> filter (\<lambda>p. Author p = A) ps = []"
  by (induction ps arbitrary: st) (auto simp add: TopUsers_update_post)

lemma sint_upvotes_fold:
  "sint (Upvotes (MostUpvotedPost (fold update_post ps st))) =
     Max (insert (sint (Upvotes (MostUpvotedPost st))) (sint ` Upvotes ` set ps))"
proof (induction ps arbitrary: st)
  case Nil
  show ?case by simp
next
  case (Cons p ps)
  let ?S = "sint ` Upvotes ` set ps"
  let ?t = "sint (Upvotes (MostUpvotedPost st))"
  have fin: "finite ?S" by simp
  have "sint (Upvotes (MostUpvotedPost (update_post p st))) = max ?t (sint (Upvotes p))"
    by (simp add: MostUpvotedPost_update_post word_sless_alt max_def)
  then have "sint (Upvotes (MostUpvotedPost (fold update_post (p # ps) st))) =
      Max (insert (max ?t (sint (Upvotes p))) ?S)"
    using Cons.IH [of "update_post p st"] by simp
  also have "\<dots> = Max (insert ?t (insert (sint (Upvotes p)) ?S))"
    using fin by (cases "?S = {}") (simp_all add: max.assoc)
  finally show ?case by simp
qed

lemma first_maximum_fold:
  "(let M = Max (insert (sint (Upvotes (MostUpvotedPost st))) (sint ` Upvotes ` set ps))
    in if sint (Upvotes (MostUpvotedPost st)) < M
       then find (\<lambda>p. sint (Upvotes p) = M) ps = Some (MostUpvotedPost (fold update_post ps st))
       else MostUpvotedPost (fold update_post ps st) = MostUpvotedPost st)"
proof (induction ps arbitrary: st)
  case Nil
  show ?case by simp
next
  case (Cons p ps)
  let ?S = "sint ` Upvotes ` set ps"
  let ?t = "sint (Upvotes (MostUpvotedPost st))"
  let ?u = "sint (Upvotes p)"
  let ?M = "Max (insert ?t (insert ?u ?S))"
  have fin: "finite ?S" by simp
  show ?case
  proof (cases "?t < ?u")
    case True
    then have top: "MostUpvotedPost (update_post p st) = p"
      by (simp add: MostUpvotedPost_update_post word_sless_alt)
    have M: "?M = Max (insert ?u ?S)"
      using True fin by (cases "?S = {}") (simp_all add: max.assoc max_def)
    have "?u \<le> ?M" by (rule Max_ge) simp_all
    with True have lt: "?t < ?M" by linarith
    have ge: "?u \<le> Max (insert ?u ?S)" by (rule Max_ge) simp_all
    then have "?u = Max (insert ?u ?S) \<or> ?u < Max (insert ?u ?S)" by linarith
    with Cons.IH [of "update_post p st"] top M lt show ?thesis
      by (auto simp add: Let_def split: if_splits)
  next
    case False
    then have top: "MostUpvotedPost (update_post p st) = MostUpvotedPost st"
      by (simp add: MostUpvotedPost_update_post word_sless_alt)
    have M: "?M = Max (insert ?t ?S)"
      using False fin by (cases "?S = {}") (simp_all add: max.left_commute max_def)
    from Cons.IH [of "update_post p st"] top M False show ?thesis
      by (auto simp add: Let_def split: if_splits)
  qed
qed


lemma sint_word_of_nat_64:
  "n < 2 ^ 63 \<Longrightarrow> sint (word_of_nat n :: go_int) = int n"
proof -
  assume "n < 2 ^ 63"
  then have "int n < 2 ^ 63" by (metis of_nat_less_iff of_nat_numeral of_nat_power)
  then show ?thesis
     by (simp add: signed_of_nat signed_take_bit_int_eq_self)
qed

lemma fresh_free: "\<not> mu NewStatsManager"
  by (simp add: NewStatsManager_def)

lemma fresh_lookup: "lookup_count (TopUsers (stats NewStatsManager)) A = 0"
  by (simp add: NewStatsManager_def lookup_count_def)

lemma fresh_top: "MostUpvotedPost (stats NewStatsManager) = zero_post"
  by (simp add: NewStatsManager_def)

subsection \<open>The most upvoted post\<close>

text \<open>
  C2, as stated, fails: the claim makes \<open>top_post.upvote_count\<close> the maximum of the upvote
  counts passed, also when all of them are negative. On a fresh aggregator one call with a
  single post of -5 upvotes leaves \<open>MostUpvotedPost\<close> the zero-valued record, whose count is
  0 and not the maximum -5.
\<close>

theorem top_post_counterexample:
  "top_post (update_all [[\<lparr>Title = ''t'', Author = ''a'', Upvotes = - 5\<rparr>]] NewStatsManager)
     = Some zero_post \<and>
   sint (Upvotes zero_post) \<noteq>
     Max (sint ` Upvotes ` set (concat [[\<lparr>Title = ''t'', Author = ''a'', Upvotes = - 5\<rparr>]]))"
  by (simp add: top_post_def UpdateStats_def Lock_def Unlock_def NewStatsManager_def
        update_post_def zero_post_def lookup_count_def Let_def word_sless_alt)

text \<open>
  C2, amended: every sequence of \<open>update()\<close> calls on a fresh aggregator returns, and
  afterwards the upvote count of \<open>MostUpvotedPost\<close> is the maximum of 0 and the upvote counts
  of all posts passed. When that maximum is positive, \<open>MostUpvotedPost\<close> is the first post
  passed that has it (a tie keeps the first); otherwise it is still the zero-valued record.
\<close>

theorem top_post_maximum_above_zero:
  "\<exists>sm. update_all pss NewStatsManager = Returns sm \<and>
     (let M = Max (insert 0 (sint ` Upvotes ` set (concat pss)))
      in sint (Upvotes (MostUpvotedPost (stats sm))) = M \<and>
         (if 0 < M
          then find (\<lambda>p. sint (Upvotes p) = M) (concat pss) = Some (MostUpvotedPost (stats sm))
          else MostUpvotedPost (stats sm) = zero_post))"
proof -
  let ?st = "stats NewStatsManager"
  have z: "sint (Upvotes (MostUpvotedPost ?st)) = 0"
    by (simp add: fresh_top zero_post_def)
  have zp: "sint (Upvotes zero_post) = 0"
    by (simp add: zero_post_def)
  have run: "update_all pss NewStatsManager =
      Returns (NewStatsManager\<lparr>stats := fold update_post (concat pss) ?st\<rparr>)"
    by (rule update_all_free [OF fresh_free])
  have "sint (Upvotes (MostUpvotedPost (fold update_post (concat pss) ?st))) =
      Max (insert 0 (sint ` Upvotes ` set (concat pss)))"
    using sint_upvotes_fold [of "concat pss" ?st] by (simp only: z)
  moreover have "let M = Max (insert 0 (sint ` Upvotes ` set (concat pss)))
     in if 0 < M
        then find (\<lambda>p. sint (Upvotes p) = M) (concat pss) =
               Some (MostUpvotedPost (fold update_post (concat pss) ?st))
        else MostUpvotedPost (fold update_post (concat pss) ?st) = zero_post"
    using first_maximum_fold [of ?st "concat pss"] by (simp only: fresh_top zp)
  ultimately show ?thesis
    unfolding run by (simp add: Let_def)
qed

text \<open>
  The amended C2 at a concrete run: two calls, with upvotes 5 and 10 in the first and another
  10 in the second. The first post with 10 upvotes is kept.
\<close>

theorem top_post_maximum_above_zero_witness:
  "top_post (update_all [[\<lparr>Title = ''x'', Author = ''alice'', Upvotes = 5\<rparr>,
                          \<lparr>Title = ''y'', Author = ''alice'', Upvotes = 10\<rparr>],
                         [\<lparr>Title = ''z'', Author = ''bob'', Upvotes = 10\<rparr>]] NewStatsManager)
     = Some \<lparr>Title = ''y'', Author = ''alice'', Upvotes = 10\<rparr>"
  using top_post_maximum_above_zero
    [of "[[\<lparr>Title = ''x'', Author = ''alice'', Upvotes = 5\<rparr>,
           \<lparr>Title = ''y'', Author = ''alice'', Upvotes = 10\<rparr>],
          [\<lparr>Title = ''z'', Author = ''bob'', Upvotes = 10\<rparr>]]"]
  by (auto simp add: top_post_def Let_def)

text \<open>
  C10: after every sequence of \<open>update()\<close> calls on a fresh aggregator the upvote count of
  \<open>MostUpvotedPost\<close> is not negative. \<open>MostUpvotedPost\<close> is either still the zero-valued
  record it starts as, or one of the posts passed, and then one with a positive upvote count:
  a post with an upvote count of 0 or less never becomes the top post.
\<close>

theorem top_post_never_negative:
  "\<exists>sm. update_all pss NewStatsManager = Returns sm \<and>
     0 \<le>s Upvotes (MostUpvotedPost (stats sm)) \<and>
     (MostUpvotedPost (stats sm) = zero_post \<or>
      MostUpvotedPost (stats sm) \<in> set (concat pss) \<and>
      0 <s Upvotes (MostUpvotedPost (stats sm)))"
proof -
  let ?st = "stats NewStatsManager"
  let ?top = "MostUpvotedPost (fold update_post (concat pss) ?st)"
  let ?M = "Max (insert 0 (sint ` Upvotes ` set (concat pss)))"
  have run: "update_all pss NewStatsManager =
      Returns (NewStatsManager\<lparr>stats := fold update_post (concat pss) ?st\<rparr>)"
    by (rule update_all_free [OF fresh_free])
  have zp: "sint (Upvotes zero_post) = 0"
    by (simp add: zero_post_def)
  have top: "sint (Upvotes ?top) = ?M"
    using sint_upvotes_fold [of "concat pss" ?st] by (simp only: fresh_top zp)
  have "0 \<le> ?M" by (intro Max_ge) simp_all
  then have nonneg: "0 \<le>s Upvotes ?top"
    by (simp only: word_sle_eq top) simp
  have first: "if 0 < ?M
      then find (\<lambda>p. sint (Upvotes p) = ?M) (concat pss) = Some ?top
      else ?top = zero_post"
    using first_maximum_fold [of ?st "concat pss"] by (simp only: fresh_top zp Let_def)
  have "?top = zero_post \<or> ?top \<in> set (concat pss) \<and> 0 <s Upvotes ?top"
  proof (cases "0 < ?M")
    case True
    with first have "find (\<lambda>p. sint (Upvotes p) = ?M) (concat pss) = Some ?top" by simp
    then have "?top \<in> set (concat pss)"
      by (metis find_Some_iff nth_mem)
    moreover from True have "0 <s Upvotes ?top"
      by (simp only: word_sless_alt top) simp
    ultimately show ?thesis by simp
  next
    case False
    with first show ?thesis by simp
  qed
  with nonneg show ?thesis
    unfolding run by simp
qed

text \<open>
  C10 at a concrete run: the only post ever passed has 0 upvotes, and the top post is still
  the zero-valued record.
\<close>

theorem top_post_never_negative_witness:
  "top_post (update_all [[\<lparr>Title = ''t'', Author = ''a'', Upvotes = 0\<rparr>]] NewStatsManager)
     = Some zero_post"
  using top_post_never_negative [of "[[\<lparr>Title = ''t'', Author = ''a'', Upvotes = 0\<rparr>]]"]
  by (auto simp add: top_post_def)

subsection \<open>Posts per author\<close>

text \<open>
  C5: after every sequence of \<open>update()\<close> calls on a fresh aggregator, \<open>TopUsers\<close> has no
  entry for an author with no post among those passed, and otherwise holds the number \<open>n\<close>
  of the posts passed with that author, as a Go \<open>int\<close>. The counter is a 64-bit integer, so
  its signed value is \<open>n\<close> as long as \<open>n\<close> is below \<open>2 ^ 63\<close>.
\<close>

theorem posts_per_author_exact:
  "\<exists>sm. update_all pss NewStatsManager = Returns sm \<and>
     (let n = length (filter (\<lambda>p. Author p = A) (concat pss))
      in TopUsers (stats sm) A = (if n = 0 then None else Some (word_of_nat n)) \<and>
         (n < 2 ^ 63 \<longrightarrow> sint (lookup_count (TopUsers (stats sm)) A) = int n))"
proof -
  let ?st = "stats NewStatsManager"
  let ?n = "length (filter (\<lambda>p. Author p = A) (concat pss))"
  let ?m = "TopUsers (fold update_post (concat pss) ?st)"
  have run: "update_all pss NewStatsManager =
      Returns (NewStatsManager\<lparr>stats := fold update_post (concat pss) ?st\<rparr>)"
    by (rule update_all_free [OF fresh_free])
  have cnt: "lookup_count ?m A = word_of_nat ?n"
    using lookup_count_fold [of "concat pss" ?st A] by (simp add: fresh_lookup)
  have none: "?m A = None \<longleftrightarrow> ?n = 0"
    using TopUsers_fold_None [of "concat pss" ?st A] by (simp add: NewStatsManager_def)
  have entry: "?m A = (if ?n = 0 then None else Some (word_of_nat ?n))"
  proof (cases "?m A")
    case None
    with none show ?thesis by simp
  next
    case (Some c)
    with cnt have "c = word_of_nat ?n" by (simp add: lookup_count_def)
    with Some none show ?thesis by simp
  qed
  have "?n < 2 ^ 63 \<longrightarrow> sint (lookup_count ?m A) = int ?n"
    unfolding cnt using sint_word_of_nat_64 by blast
  with entry show ?thesis
    unfolding run by (simp add: Let_def)
qed

text \<open>
  C5 at a concrete run: two posts by alice over two calls, and one by bob.
\<close>

theorem posts_per_author_exact_witness:
  "\<exists>sm. update_all [[\<lparr>Title = ''x'', Author = ''alice'', Upvotes = 5\<rparr>,
                      \<lparr>Title = ''y'', Author = ''bob'', Upvotes = 1\<rparr>],
                     [\<lparr>Title = ''z'', Author = ''alice'', Upvotes = 10\<rparr>]] NewStatsManager
          = Returns sm \<and>
        TopUsers (stats sm) ''alice'' = Some 2 \<and>
        sint (lookup_count (TopUsers (stats sm)) ''alice'') = 2"
  using posts_per_author_exact
    [of "[[\<lparr>Title = ''x'', Author = ''alice'', Upvotes = 5\<rparr>,
           \<lparr>Title = ''y'', Author = ''bob'', Upvotes = 1\<rparr>],
          [\<lparr>Title = ''z'', Author = ''alice'', Upvotes = 10\<rparr>]]" "''alice''"]
  by (auto simp add: Let_def)

subsection \<open>The invariant\<close>

text \<open>
  C6: in the state reached from the fresh aggregator by any sequence of \<open>update()\<close> calls,
  one more call returns and leaves a top post whose upvote count is at least the upvote count
  of every post passed so far, this call's included; and no author's counter is lower after
  the call than before it (as long as the author's number of posts is below \<open>2 ^ 63\<close>, where
  the 64-bit counter would wrap around).
\<close>

theorem update_keeps_invariant:
  "\<exists>sm sm'. update_all pss NewStatsManager = Returns sm \<and>
     UpdateStats posts sm = Returns sm' \<and>
     (\<forall>p \<in> set (concat pss) \<union> set posts. Upvotes p \<le>s Upvotes (MostUpvotedPost (stats sm'))) \<and>
     (length (filter (\<lambda>p. Author p = A) (concat pss @ posts)) < 2 ^ 63 \<longrightarrow>
        sint (lookup_count (TopUsers (stats sm)) A)
          \<le> sint (lookup_count (TopUsers (stats sm')) A))"
proof -
  let ?st = "stats NewStatsManager"
  let ?sm = "NewStatsManager\<lparr>stats := fold update_post (concat pss) ?st\<rparr>"
  let ?sm' = "NewStatsManager\<lparr>stats := fold update_post (concat pss @ posts) ?st\<rparr>"
  let ?n = "length (filter (\<lambda>p. Author p = A) (concat pss))"
  let ?k = "length (filter (\<lambda>p. Author p = A) posts)"
  have run: "update_all pss NewStatsManager = Returns ?sm"
    by (rule update_all_free [OF fresh_free])
  have "\<not> mu ?sm" by (simp add: fresh_free)
  then have step: "UpdateStats posts ?sm = Returns ?sm'"
    by (simp add: UpdateStats_free)
  have top: "sint (Upvotes (MostUpvotedPost (stats ?sm'))) =
      Max (insert 0 (sint ` Upvotes ` set (concat pss @ posts)))"
    using sint_upvotes_fold [of "concat pss @ posts" ?st]
    by (simp add: fresh_top zero_post_def)
  have bound: "\<forall>p \<in> set (concat pss) \<union> set posts.
      Upvotes p \<le>s Upvotes (MostUpvotedPost (stats ?sm'))"
  proof
    fix p assume "p \<in> set (concat pss) \<union> set posts"
    then have "sint (Upvotes p) \<in> insert 0 (sint ` Upvotes ` set (concat pss @ posts))"
      by auto
    then have "sint (Upvotes p) \<le> Max (insert 0 (sint ` Upvotes ` set (concat pss @ posts)))"
      by (intro Max_ge) simp_all
    then show "Upvotes p \<le>s Upvotes (MostUpvotedPost (stats ?sm'))"
      by (simp only: word_sle_eq top)
  qed
  have c1: "lookup_count (TopUsers (stats ?sm)) A = word_of_nat ?n"
    using lookup_count_fold [of "concat pss" ?st A] by (simp add: fresh_lookup)
  have c2: "lookup_count (TopUsers (stats ?sm')) A = word_of_nat (?n + ?k)"
    using lookup_count_fold [of "concat pss @ posts" ?st A] by (simp add: fresh_lookup)
  have mono: "length (filter (\<lambda>p. Author p = A) (concat pss @ posts)) < 2 ^ 63 \<longrightarrow>
      sint (lookup_count (TopUsers (stats ?sm)) A)
        \<le> sint (lookup_count (TopUsers (stats ?sm')) A)"
  proof
    assume "length (filter (\<lambda>p. Author p = A) (concat pss @ posts)) < 2 ^ 63"
    then have lt: "?n + ?k < 2 ^ 63" by simp
    then have "?n < 2 ^ 63" by linarith
    with lt show "sint (lookup_count (TopUsers (stats ?sm)) A)
        \<le> sint (lookup_count (TopUsers (stats ?sm')) A)"
      by (simp only: c1 c2 sint_word_of_nat_64)
  qed
  from run step bound mono show ?thesis by blast
qed

text \<open>
  C6 at a concrete run: a call with a post of 5 upvotes by alice, then a call with a post of
  -3 upvotes by alice.
\<close>

theorem update_keeps_invariant_witness:
  "\<exists>sm sm'. update_all [[\<lparr>Title = ''x'', Author = ''alice'', Upvotes = 5\<rparr>]] NewStatsManager
               = Returns sm \<and>
     UpdateStats [\<lparr>Title = ''y'', Author = ''alice'', Upvotes = - 3\<rparr>] sm = Returns sm' \<and>
     (- 3 :: go_int) \<le>s Upvotes (MostUpvotedPost (stats sm')) \<and>
     5 \<le>s Upvotes (MostUpvotedPost (stats sm')) \<and>
     sint (lookup_count (TopUsers (stats sm)) ''alice'')
       \<le> sint (lookup_count (TopUsers (stats sm')) ''alice'')"
  using update_keeps_invariant
    [of "[[\<lparr>Title = ''x'', Author = ''alice'', Upvotes = 5\<rparr>]]"
        "[\<lparr>Title = ''y'', Author = ''alice'', Upvotes = - 3\<rparr>]" "''alice''"]
  by (auto simp add: Let_def)

section \<open>Properties of the token provider\<close>

text \<open>
  Where \<open>FetchAccessToken\<close> returns an error and where it returns the token: a failed HTTP
  call, a status other than 200 and a body that does not decode give an error value; a 200
  response whose \<open>access_token\<close> is a string gives that string. It panics exactly on a 200
  response whose decoded body has no string under \<open>access_token\<close>.
\<close>

lemma FetchAccessToken_do_error:
  "FetchAccessToken (Inl err) = Returns (Inl err)"
  by (simp add: FetchAccessToken_def)

lemma FetchAccessToken_bad_status:
  "StatusCode resp \<noteq> 200 \<Longrightarrow>
   FetchAccessToken (Inr resp) = Returns (Inl (StatusError (Status resp)))"
  by (simp add: FetchAccessToken_def)

lemma FetchAccessToken_bad_body:
  "StatusCode resp = 200 \<Longrightarrow> decode_map (Body resp) = Inl err \<Longrightarrow>
   FetchAccessToken (Inr resp) = Returns (Inl err)"
  by (simp add: FetchAccessToken_def)

lemma FetchAccessToken_token:
  "StatusCode resp = 200 \<Longrightarrow> decode_map (Body resp) = Inr m \<Longrightarrow>
   map_index m ''access_token'' = JString token \<Longrightarrow>
   FetchAccessToken (Inr resp) = Returns (Inr token)"
  by (simp add: FetchAccessToken_def)

lemma FetchAccessToken_panics_iff:
  "FetchAccessToken r = Panics \<longleftrightarrow>
     (\<exists>resp m. r = Inr resp \<and> StatusCode resp = 200 \<and> decode_map (Body resp) = Inr m \<and>
        assert_string (map_index m ''access_token'') = None)"
  by (auto simp add: FetchAccessToken_def split: sum.splits option.splits)

text \<open>
  C3 (the code departs from the claim): the claim has \<open>FetchAccessToken\<close> return an error
  value when \<open>access_token\<close> is missing or not a string. On a 200 response with the body
  \<open>{"error": "invalid_grant"}\<close>, and on one with the body \<open>{"access_token": 7}\<close>, the
  unchecked type assertion of line 67 panics instead.
\<close>

theorem FetchAccessToken_missing_field_panics:
  "FetchAccessToken
     (Inr \<lparr>StatusCode = 200, Status = ''200 OK'', Header = (\<lambda>h. []),
           Body = Some (JObject [(''error'', JString ''invalid_grant'')])\<rparr>) = Panics \<and>
   FetchAccessToken
     (Inr \<lparr>StatusCode = 200, Status = ''200 OK'', Header = (\<lambda>h. []),
           Body = Some (JObject [(''access_token'', JNumber 7)])\<rparr>) = Panics"
  by (simp add: FetchAccessToken_def decode_map_def map_index_def)

section \<open>Properties of the fetcher\<close>

subsection \<open>Status 429\<close>

text \<open>
  C8: on a response with status 429 \<open>FetchRedditData\<close> returns and leaves the whole manager
  as it was: the counters, the top post, \<open>remainingRequests\<close>, \<open>resetTime\<close> and the mutex.
\<close>

theorem FetchRedditData_429_unchanged:
  "StatusCode resp = 429 \<Longrightarrow> FetchRedditData Sscanf_d ParseInt (Inr resp) sm = Returns sm"
  by (simp add: FetchRedditData_def)

text \<open>
  C8 at a concrete response: status 429 with a rate-limit header that would otherwise set
  \<open>remainingRequests\<close> to 0.
\<close>

theorem FetchRedditData_429_unchanged_witness:
  "FetchRedditData (\<lambda>s. Some 0) (\<lambda>s. 0)
     (Inr \<lparr>StatusCode = 429, Status = ''429 Too Many Requests'',
           Header = (\<lambda>h. if h = ''X-RateLimit-Remaining'' then ''0'' else []),
           Body = Some (JObject [])\<rparr>)
     (NewStatsManager\<lparr>remainingRequests := 7\<rparr>)
   = Returns (NewStatsManager\<lparr>remainingRequests := 7\<rparr>)"
  using FetchRedditData_429_unchanged
    [of "\<lparr>StatusCode = 429, Status = ''429 Too Many Requests'',
           Header = (\<lambda>h. if h = ''X-RateLimit-Remaining'' then ''0'' else []),
           Body = Some (JObject [])\<rparr>" "\<lambda>s. Some 0" "\<lambda>s. 0"
        "NewStatsManager\<lparr>remainingRequests := 7\<rparr>"]
  by simp

subsection \<open>Bodies that do not decode, and bodies of another shape\<close>

text \<open>
  A body that does not decode ends the cycle with a return: the statistics are unchanged and
  the mutex is free again.
\<close>

lemma FetchRedditData_decode_error:
  assumes "StatusCode resp \<noteq> 429" and "decode_map (Body resp) = Inl err" and "\<not> mu sm"
  shows "\<exists>sm'. FetchRedditData Sscanf_d ParseInt (Inr resp) sm = Returns sm' \<and>
           stats sm' = stats sm \<and> \<not> mu sm'"
  using assms
  by (auto simp add: FetchRedditData_def Let_def Lock_def Unlock_def split: option.splits)

text \<open>
  C4 (the code departs from the claim): the claim has \<open>FetchRedditData\<close> return normally,
  with nothing recorded, when a nested field is missing or of another type. On a 200 response
  with the body \<open>{}\<close> (no \<open>data\<close> object), and on one whose only child has the string
  \<open>"12"\<close> as its \<open>score\<close>, the unchecked type assertions of lines 172-177 panic instead.
\<close>

theorem FetchRedditData_missing_field_panics:
  "FetchRedditData Sscanf_d ParseInt
     (Inr \<lparr>StatusCode = 200, Status = ''200 OK'', Header = (\<lambda>h. []),
           Body = Some (JObject [])\<rparr>) NewStatsManager = Panics \<and>
   FetchRedditData Sscanf_d ParseInt
     (Inr \<lparr>StatusCode = 200, Status = ''200 OK'', Header = (\<lambda>h. []),
           Body = Some (JObject [(''data'', JObject [(''children'', JArray
             [JObject [(''data'', JObject [(''title'', JString ''t''),
                                           (''author'', JString ''a''),
                                           (''score'', JString ''12'')])]])])])\<rparr>)
     NewStatsManager = Panics"
  by (simp add: FetchRedditData_def decode_map_def map_index_def listing_posts_def
        listing_children_def child_post_def)

subsection \<open>The mutex\<close>

text \<open>
  With a \<open>X-RateLimit-Remaining\<close> header the function takes the mutex on line 153 and
  releases it only when it returns. A well-formed listing then takes it to line 184, where
  \<open>UpdateStats\<close> locks the same mutex: the call never returns.
\<close>

lemma FetchRedditData_relocks:
  assumes "StatusCode resp \<noteq> 429"
      and "Header resp ''X-RateLimit-Remaining'' \<noteq> []"
      and "decode_map (Body resp) = Inr result"
      and "listing_posts result = Some posts"
  shows "FetchRedditData Sscanf_d ParseInt (Inr resp) sm = Blocks"
proof (cases "mu sm")
  case True
  with assms show ?thesis
    by (simp add: FetchRedditData_def Let_def Lock_def)
next
  case False
  with assms show ?thesis
    by (simp add: FetchRedditData_def Let_def Lock_def UpdateStats_held split: option.splits)
qed

text \<open>
  C9 (the code departs from the claim): the claim has every path that touches the shared
  state take and release the mutex without self-deadlock. On a 200 response with the header
  \<open>X-RateLimit-Remaining: 99\<close> and a listing of one well-formed post, \<open>FetchRedditData\<close>
  started on the fresh manager blocks for ever.
\<close>

theorem FetchRedditData_self_deadlock:
  "FetchRedditData Sscanf_d ParseInt
     (Inr \<lparr>StatusCode = 200, Status = ''200 OK'',
           Header = (\<lambda>h. if h = ''X-RateLimit-Remaining'' then ''99'' else []),
           Body = Some (JObject [(''data'', JObject [(''children'', JArray
             [JObject [(''data'', JObject [(''title'', JString ''t''),
                                           (''author'', JString ''a''),
                                           (''score'', JNumber 3)])]])])])\<rparr>)
     NewStatsManager = Blocks"
  by (simp add: FetchRedditData_def decode_map_def map_index_def listing_posts_def
        listing_children_def child_post_def Let_def Lock_def UpdateStats_def NewStatsManager_def
        split: option.splits)

text \<open>
  Without that header the posts of a well-formed listing reach the aggregator.
\<close>

lemma FetchRedditData_records_posts:
  assumes "StatusCode resp \<noteq> 429"
      and "Header resp ''X-RateLimit-Remaining'' = []"
      and "decode_map (Body resp) = Inr result"
      and "listing_posts result = Some posts"
      and "\<not> mu sm"
  shows "\<exists>sm'. FetchRedditData Sscanf_d ParseInt (Inr resp) sm = Returns sm' \<and>
           stats sm' = fold update_post posts (stats sm)"
  using assms
  by (auto simp add: FetchRedditData_def Let_def UpdateStats_free)

subsection \<open>The score of a post\<close>

lemma collect_posts_nth:
  "collect_posts children acc = Some posts \<Longrightarrow>
   length posts = length acc + length children \<and>
   (\<forall>i < length children. child_post (children ! i) = Some (posts ! (length acc + i))) \<and>
   take (length acc) posts = acc"
proof (induction children arbitrary: acc)
  case Nil
  then show ?case by simp
next
  case (Cons child rest)
  from Cons.prems obtain p where p: "child_post child = Some p"
    and rest: "collect_posts rest (acc @ [p]) = Some posts"
    by (auto split: option.splits)
  from Cons.IH [OF rest] have len: "length posts = length acc + 1 + length rest"
    and nth: "\<forall>i < length rest. child_post (rest ! i) = Some (posts ! (length acc + 1 + i))"
    and pre: "take (length acc + 1) posts = acc @ [p]"
    by simp_all
  from pre have "take (length acc) (take (length acc + 1) posts) = take (length acc) (acc @ [p])"
    by simp
  then have pre': "take (length acc) posts = acc" by simp
  from pre have "(take (length acc + 1) posts) ! length acc = (acc @ [p]) ! length acc"
    by simp
  then have here: "posts ! length acc = p" by simp
  have "\<forall>i < length (child # rest).
      child_post ((child # rest) ! i) = Some (posts ! (length acc + i))"
  proof (intro allI impI)
    fix i assume "i < length (child # rest)"
    then show "child_post ((child # rest) ! i) = Some (posts ! (length acc + i))"
      using p here nth by (cases i) simp_all
  qed
  with len pre' show ?case by simp
qed

lemma listing_posts_nth:
  assumes "listing_children result = Some children"
      and "listing_posts result = Some posts"
  shows "length posts = length children"
    and "i < length children \<Longrightarrow> child_post (children ! i) = Some (posts ! i)"
  using assms collect_posts_nth [of children "[]" posts]
  by (simp_all add: listing_posts_def)

lemma int_of_float64_42: "int_of_float64 42 = 42"
  by (simp add: int_of_float64_def)

lemma int_of_float64_truncates:
  assumes "- (2 ^ 63) - 1 < f" and "f < 2 ^ 63"
  shows "\<bar>of_int (sint (int_of_float64 f))\<bar> \<le> \<bar>f\<bar>"
    and "\<bar>f - of_int (sint (int_of_float64 f))\<bar> < 1"
proof -
  let ?t = "if 0 \<le> f then \<lfloor>f\<rfloor> else \<lceil>f\<rceil>"
  have lo: "- (2 ^ 63) \<le> ?t"
  proof (cases "0 \<le> f")
    case True
    then have "0 \<le> \<lfloor>f\<rfloor>" by simp
    then show ?thesis using True by simp
  next
    case False
    have "(- (2 ^ 63) - 1 :: int) < \<lceil>f\<rceil>"
      using assms(1) by (simp add: less_ceiling_iff)
    then show ?thesis using False by simp
  qed
  have hi: "?t < 2 ^ 63"
  proof (cases "0 \<le> f")
    case True
    have "\<lfloor>f\<rfloor> < 2 ^ 63" using assms(2) by (simp add: floor_less_iff)
    then show ?thesis using True by simp
  next
    case False
    then have "\<lceil>f\<rceil> \<le> 0" by (simp add: ceiling_le_iff)
    then show ?thesis using False by simp
  qed
  have "sint (word_of_int ?t :: go_int) = ?t"
    using lo hi by (simp add: signed_of_int signed_take_bit_int_eq_self)
  with lo hi have val: "sint (int_of_float64 f) = ?t"
    by (simp add: int_of_float64_def Let_def)
  have both: "\<bar>of_int ?t\<bar> \<le> \<bar>f\<bar> \<and> \<bar>f - of_int ?t\<bar> < 1"
  proof (cases "0 \<le> f")
    case True
    have "0 \<le> \<lfloor>f\<rfloor>" using True by simp
    then have "(0::rat) \<le> of_int \<lfloor>f\<rfloor>" by simp
    moreover have "of_int \<lfloor>f\<rfloor> \<le> f" and "f < of_int \<lfloor>f\<rfloor> + 1"
      using floor_correct [of f] by simp_all
    ultimately show ?thesis using True by simp
  next
    case False
    then have "\<lceil>f\<rceil> \<le> 0" by (simp add: ceiling_le_iff)
    then have "of_int \<lceil>f\<rceil> \<le> (0::rat)" by simp
    moreover have "of_int \<lceil>f\<rceil> - 1 < f" and "f \<le> of_int \<lceil>f\<rceil>"
      using ceiling_correct [of f] by simp_all
    ultimately show ?thesis using False by simp
  qed
  from both show "\<bar>of_int (sint (int_of_float64 f))\<bar> \<le> \<bar>f\<bar>"
    unfolding val by simp
  from both show "\<bar>f - of_int (sint (int_of_float64 f))\<bar> < 1"
    unfolding val by simp
qed

text \<open>
  C7: when the listing of a response is walked to the end, each child yields one post, in
  order. For a child whose \<open>score\<close> is the number \<open>x\<close>, the post's upvote count is 42 when
  \<open>x\<close> is 42.0, and in general (for \<open>x\<close> within the range of \<open>int\<close>) it is \<open>x\<close>
  truncated toward zero: the integer \<open>n\<close> with \<open>\<bar>n\<bar> \<le> \<bar>x\<bar>\<close> and \<open>\<bar>x - n\<bar> < 1\<close>.
\<close>

theorem score_is_truncated:
  assumes "listing_children result = Some children"
      and "listing_posts result = Some posts"
      and "i < length children"
      and "assert_map (children ! i) = Some c"
      and "assert_map (map_index c ''data'') = Some postData"
      and "map_index postData ''score'' = JNumber x"
  shows "length posts = length children \<and>
         (x = 42 \<longrightarrow> Upvotes (posts ! i) = 42) \<and>
         (- (2 ^ 63) - 1 < x \<and> x < 2 ^ 63 \<longrightarrow>
            \<bar>of_int (sint (Upvotes (posts ! i)))\<bar> \<le> \<bar>x\<bar> \<and>
            \<bar>x - of_int (sint (Upvotes (posts ! i)))\<bar> < 1)"
proof -
  have len: "length posts = length children"
    using assms(1,2) by (rule listing_posts_nth(1))
  have "child_post (children ! i) = Some (posts ! i)"
    using assms(1,2,3) by (rule listing_posts_nth(2))
  with assms(4,5,6) obtain t a where
    "\<lparr>Title = t, Author = a, Upvotes = int_of_float64 x\<rparr> = posts ! i"
    by (auto simp add: child_post_def split: option.splits)
  from this [symmetric] have up: "Upvotes (posts ! i) = int_of_float64 x"
    by simp
  show ?thesis
    unfolding up using len int_of_float64_42 int_of_float64_truncates [of x] by blast
qed

text \<open>
  C7 at a concrete listing: two children, with the scores 42.0 and -2.5; the posts have 42 and
  -2 upvotes.
\<close>

theorem score_is_truncated_witness:
  "listing_posts
     [(''data'', JObject [(''children'', JArray
        [JObject [(''data'', JObject [(''title'', JString ''t''), (''author'', JString ''a''),
                                      (''score'', JNumber 42)])],
         JObject [(''data'', JObject [(''title'', JString ''u''), (''author'', JString ''b''),
                                      (''score'', JNumber (- 5 / 2))])]])])]
   = Some [\<lparr>Title = ''t'', Author = ''a'', Upvotes = 42\<rparr>,
           \<lparr>Title = ''u'', Author = ''b'', Upvotes = - 2\<rparr>] \<and>
   Upvotes ([\<lparr>Title = ''t'', Author = ''a'', Upvotes = 42\<rparr>,
             \<lparr>Title = ''u'', Author = ''b'', Upvotes = - 2\<rparr>] ! 0) = 42"
proof -
  have "\<lfloor>5 / 2 :: rat\<rfloor> = 2"
    using floor_divide_of_int_eq [of 5 2, where ?'a = rat] by simp
  then have half: "int_of_float64 (- (5 / 2)) = - 2"
    by (simp add: int_of_float64_def ceiling_minus)
  show ?thesis
  using score_is_truncated
    [of "[(''data'', JObject [(''children'', JArray
        [JObject [(''data'', JObject [(''title'', JString ''t''), (''author'', JString ''a''),
                                      (''score'', JNumber 42)])],
         JObject [(''data'', JObject [(''title'', JString ''u''), (''author'', JString ''b''),
                                      (''score'', JNumber (- 5 / 2))])]])])]"
        "[JObject [(''data'', JObject [(''title'', JString ''t''), (''author'', JString ''a''),
                                      (''score'', JNumber 42)])],
         JObject [(''data'', JObject [(''title'', JString ''u''), (''author'', JString ''b''),
                                      (''score'', JNumber (- 5 / 2))])]]"
        "[\<lparr>Title = ''t'', Author = ''a'', Upvotes = 42\<rparr>,
           \<lparr>Title = ''u'', Author = ''b'', Upvotes = - 2\<rparr>]"
        0
        "[(''data'', JObject [(''title'', JString ''t''), (''author'', JString ''a''),
                                      (''score'', JNumber 42)])]"
        "[(''title'', JString ''t''), (''author'', JString ''a''), (''score'', JNumber 42)]"
        42]
  by (simp add: listing_posts_def listing_children_def map_index_def child_post_def
        int_of_float64_42 half)
qed

section \<open>Properties of the scheduler loop\<close>

text \<open>
  An iteration that finds \<open>remainingRequests\<close> at 0 does not fetch and leaves the manager as
  it was; when moreover \<open>resetTime\<close> is not in the future, it does not wait for the reset
  either and goes to the fixed pause. An iteration that finds \<open>remainingRequests\<close> positive
  fetches.
\<close>

lemma main_iteration_idle:
  assumes "\<not> 0 <s remainingRequests sm"
  shows "\<exists>evs. main_iteration Sscanf_d ParseInt now do_result sm = Returns (sm, evs) \<and>
           Fetch \<notin> set evs"
  using assms by (simp add: main_iteration_def)

lemma main_iteration_no_wait:
  assumes "remainingRequests sm = 0" and "resetTime sm \<le> now"
  shows "main_iteration Sscanf_d ParseInt now do_result sm = Returns (sm, [Pause])"
  using assms by (simp add: main_iteration_def Until_def)

lemma main_loop_idle:
  assumes "\<not> 0 <s remainingRequests sm"
  shows "\<exists>evs. main_loop Sscanf_d ParseInt clock server i n sm = Returns (sm, evs) \<and>
           Fetch \<notin> set evs"
proof (induction n arbitrary: i)
  case 0
  show ?case by simp
next
  case (Suc n)
  from main_iteration_idle [OF assms] obtain evs where
    it: "main_iteration Sscanf_d ParseInt (clock i) (server i) sm = Returns (sm, evs)"
    and evs: "Fetch \<notin> set evs"
    by blast
  from Suc.IH [of "Suc i"] obtain evs' where
    rest: "main_loop Sscanf_d ParseInt clock server (Suc i) n sm = Returns (sm, evs')"
    and evs': "Fetch \<notin> set evs'"
    by blast
  from it rest evs evs' show ?case by simp
qed

lemma main_loop_fetches_when_permitted:
  assumes "0 <s remainingRequests sm"
      and "FetchRedditData Sscanf_d ParseInt do_result sm = Returns sm'"
  shows "main_iteration Sscanf_d ParseInt now do_result sm = Returns (sm', [Fetch, Pause])"
  using assms by (simp add: main_iteration_def)

lemma main_loop_only_pauses:
  assumes "\<And>j. zero_time \<le> clock j"
  shows "main_loop Sscanf_d ParseInt clock server i n NewStatsManager
           = Returns (NewStatsManager, replicate n Pause)"
proof (induction n arbitrary: i)
  case 0
  show ?case by simp
next
  case (Suc n)
  have "main_iteration Sscanf_d ParseInt (clock i) (server i) NewStatsManager
          = Returns (NewStatsManager, [Pause])"
    by (rule main_iteration_no_wait) (simp_all add: NewStatsManager_def assms)
  with Suc.IH [of "Suc i"] show ?case by simp
qed

text \<open>
  C1 (the code departs from the claim): the claim has the loop, started in the initial state
  (\<open>remainingRequests\<close> 0, \<open>resetTime\<close> the zero time), eventually perform a fetch.
  \<open>remainingRequests\<close> is written only by \<open>FetchRedditData\<close>, which the loop calls only
  when \<open>remainingRequests\<close> is positive: whatever the clock and the server, after any
  number of iterations the manager is the initial one and no fetch has taken place.
\<close>

theorem main_loop_never_fetches:
  "\<exists>evs. main_loop Sscanf_d ParseInt clock server 0 n NewStatsManager
            = Returns (NewStatsManager, evs) \<and>
         Fetch \<notin> set evs"
  by (rule main_loop_idle) (simp add: NewStatsManager_def)

end
